theory Spec2Isabelle
  imports Complex_Main "HOL-Library.Sublist"
begin

section \<open>Python strings\<close>

text \<open>
  A Python \<open>str\<close> is a sequence of Unicode code points and \<open>len\<close> counts code points, so
  a string is a list of code-point numbers. ASCII literals of the source are written
  through \<open>str\<close>; the few non-ASCII characters of the source are given by number.
\<close>

type_synonym pystr = "nat list"

definition str :: "string \<Rightarrow> pystr" where
  "str s = map of_char s"

text \<open>\<open>sub in s\<close>: the substring test.\<close>

fun contains :: "'a list \<Rightarrow> 'a list \<Rightarrow> bool" where
  "contains sub [] = (sub = [])"
| "contains sub (c # cs) = (prefix sub (c # cs) \<or> contains sub cs)"

text \<open>
  \<open>s.split(sep)\<close> for a non-empty separator: the leftmost occurrence of \<open>sep\<close> ends the
  first piece and the scan goes on behind it. Python raises \<open>ValueError\<close> on an empty
  separator; the source only ever passes the constant \<open>chunk_sep\<close>, and the model returns
  the whole string as one piece there.
\<close>

function split :: "'a list \<Rightarrow> 'a list \<Rightarrow> 'a list list" where
  "split sep s =
     (if sep = [] then [s]
      else if s = [] then [[]]
      else if prefix sep s then [] # split sep (drop (length sep) s)
      else (case split sep (tl s) of
              [] \<Rightarrow> [[hd s]]
            | r # rs \<Rightarrow> (hd s # r) # rs))"
  by pat_completeness auto
termination
  by (relation "measure (\<lambda>(sep, s). length s)") auto

declare split.simps [simp del]

text \<open>\<open>sep.join(xs)\<close>.\<close>

fun join :: "'a list \<Rightarrow> 'a list list \<Rightarrow> 'a list" where
  "join sep [] = []"
| "join sep [x] = x"
| "join sep (x # y # ys) = x @ sep @ join sep (y # ys)"

text \<open>\<open>str.isspace\<close> on one code point, and \<open>s.strip()\<close>.\<close>

definition is_space :: "nat \<Rightarrow> bool" where
  "is_space c \<longleftrightarrow>
     (9 \<le> c \<and> c \<le> 13) \<or> (28 \<le> c \<and> c \<le> 32) \<or> c = 133 \<or> c = 160 \<or> c = 5760
     \<or> (8192 \<le> c \<and> c \<le> 8202) \<or> c = 8232 \<or> c = 8233 \<or> c = 8239 \<or> c = 8287
     \<or> c = 12288"

definition strip :: "pystr \<Rightarrow> pystr" where
  "strip s = rev (dropWhile is_space (rev (dropWhile is_space s)))"

section \<open>The transcript chunker of \<open>get_youtube_transcript\<close>\<close>

text \<open>
  One fetched transcript snippet. \<open>start\<close> is a float in the source; the model takes it
  as an exact rational number of seconds.
\<close>

record part =
  start :: rat
  part_text :: pystr

text \<open>Decimal digits of a natural number, and the format specs \<open>:02d\<close> and \<open>:.1f\<close>.\<close>

fun dec :: "nat \<Rightarrow> pystr" where
  "dec n = (if n < 10 then [48 + n] else dec (n div 10) @ [48 + n mod 10])"

declare dec.simps [simp del]

definition fmt_02d :: "int \<Rightarrow> pystr" where
  "fmt_02d i =
     (if i < 0 then 45 # dec (nat (- i))
      else if i < 10 then 48 # dec (nat i)
      else dec (nat i))"

definition round_half_even :: "rat \<Rightarrow> int" where
  "round_half_even q =
     (let f = \<lfloor>q\<rfloor>; d = q - of_int f
      in if d < 1 / 2 then f
         else if 1 / 2 < d then f + 1
         else if even f then f else f + 1)"

definition fmt_1f :: "rat \<Rightarrow> pystr" where
  "fmt_1f r =
     (let m = round_half_even (\<bar>r\<bar> * 10)
      in (if r < 0 then [45] else []) @ dec (nat (m div 10)) @ [46] @ dec (nat (m mod 10)))"

text \<open>
  \<open>f"[{int(part.start//60):02d}:{int(part.start%60):02d}] {part.text}\n"\<close>: one
  timestamped line, the indivisible unit of the chunker.
\<close>

definition text_with_timestamp :: "part \<Rightarrow> pystr" where
  "text_with_timestamp p =
     (let minutes = \<lfloor>start p / 60\<rfloor>;
          seconds = \<lfloor>start p - 60 * of_int \<lfloor>start p / 60\<rfloor>\<rfloor>
      in str ''['' @ fmt_02d minutes @ str '':'' @ fmt_02d seconds @ str ''] ''
           @ part_text p @ str ''\<newline>'')"

definition chunk_sep :: pystr where
  "chunk_sep = str ''\<newline>---\<newline>''"

definition max_chunk_size :: nat where
  "max_chunk_size = 4000"

text \<open>
  The loop state of lines 178-180: \<open>formatted_text\<close>, \<open>current_chunk\<close>, \<open>chunk_size\<close>.
  \<open>chunk_step\<close> is one iteration of the \<open>for\<close> loop on one formatted unit, for a budget
  \<open>B\<close> (the source's \<open>max_chunk_size\<close>).
\<close>

record chunker =
  formatted_text :: pystr
  current_chunk :: pystr
  chunk_size :: nat

definition chunk_init :: chunker where
  "chunk_init = \<lparr>formatted_text = [], current_chunk = [], chunk_size = 0\<rparr>"

definition chunk_step :: "nat \<Rightarrow> chunker \<Rightarrow> pystr \<Rightarrow> chunker" where
  "chunk_step B st u =
     (if chunk_size st + length u > B
      then \<lparr>formatted_text = formatted_text st @ current_chunk st @ chunk_sep,
            current_chunk = u,
            chunk_size = length u\<rparr>
      else \<lparr>formatted_text = formatted_text st,
            current_chunk = current_chunk st @ u,
            chunk_size = chunk_size st + length u\<rparr>)"

fun chunk_loop :: "nat \<Rightarrow> chunker \<Rightarrow> pystr list \<Rightarrow> chunker" where
  "chunk_loop B st [] = st"
| "chunk_loop B st (u # us) = chunk_loop B (chunk_step B st u) us"

text \<open>Line 196: the last chunk is appended and the text returned.\<close>

definition chunk_units :: "nat \<Rightarrow> pystr list \<Rightarrow> pystr" where
  "chunk_units B us =
     (let st = chunk_loop B chunk_init us in formatted_text st @ current_chunk st)"

definition format_transcript :: "part list \<Rightarrow> pystr" where
  "format_transcript ps = chunk_units max_chunk_size (map text_with_timestamp ps)"

text \<open>
  The Segments of the chunker: the values of \<open>current_chunk\<close> that the loop closes, in
  order, followed by the last one. The source never holds them as a list: it writes
  them into \<open>formatted_text\<close> with \<open>chunk_sep\<close> between them (lemma
  \<open>chunk_units_join\<close> below), and \<open>generate_summary\<close> recovers them with \<open>split\<close>.
  \<open>seg_loop\<close> is the same loop as \<open>chunk_loop\<close> with the closed chunks collected;
  \<open>group_loop\<close> collects the units of each chunk instead of their concatenation.
\<close>

fun seg_loop :: "nat \<Rightarrow> pystr list \<Rightarrow> pystr \<Rightarrow> nat \<Rightarrow> pystr list \<Rightarrow> pystr list" where
  "seg_loop B acc cur n [] = acc @ [cur]"
| "seg_loop B acc cur n (u # us) =
     (if n + length u > B then seg_loop B (acc @ [cur]) u (length u) us
      else seg_loop B acc (cur @ u) (n + length u) us)"

definition segments :: "nat \<Rightarrow> pystr list \<Rightarrow> pystr list" where
  "segments B us = seg_loop B [] [] 0 us"

fun group_loop ::
  "nat \<Rightarrow> pystr list list \<Rightarrow> pystr list \<Rightarrow> nat \<Rightarrow> pystr list \<Rightarrow> pystr list list" where
  "group_loop B acc cur n [] = acc @ [cur]"
| "group_loop B acc cur n (u # us) =
     (if n + length u > B then group_loop B (acc @ [cur]) [u] (length u) us
      else group_loop B acc (cur @ [u]) (n + length u) us)"

definition unit_groups :: "nat \<Rightarrow> pystr list \<Rightarrow> pystr list list" where
  "unit_groups B us = group_loop B [] [] 0 us"


text \<open>
  Predicates used to state the properties of the chunker. A group of units is within the
  budget, or it is one unit that alone exceeds it. A unit is well formed when it has the
  shape of a timestamped line and the chunk separator does not occur in it; a chunk is
  clean when the separator does not occur in it and it is empty or ends with a newline.
\<close>

definition group_ok :: "nat \<Rightarrow> pystr list \<Rightarrow> bool" where
  "group_ok B g \<longleftrightarrow> length (concat g) \<le> B \<or> (\<exists>u. g = [u] \<and> B < length u)"

definition unit_ok :: "pystr \<Rightarrow> bool" where
  "unit_ok u \<longleftrightarrow> u \<noteq> [] \<and> hd u = 91 \<and> last u = 10 \<and> \<not> contains chunk_sep u"

definition clean :: "pystr \<Rightarrow> bool" where
  "clean c \<longleftrightarrow> \<not> contains chunk_sep c \<and> (c = [] \<or> last c = 10)"

section \<open>\<open>extract_video_id\<close>\<close>

text \<open>
  The three patterns are each a choice of literal prefixes followed by the group
  \<open>([0-9A-Za-z_-]{11})\<close>; \<open>re.search\<close> returns the match at the leftmost position, and
  the trailing \<open>.*\<close> of the first pattern matches anything. \<open>re_search\<close> returns group 1.
\<close>

definition is_id_char :: "nat \<Rightarrow> bool" where
  "is_id_char c \<longleftrightarrow>
     (48 \<le> c \<and> c \<le> 57) \<or> (65 \<le> c \<and> c \<le> 90) \<or> (97 \<le> c \<and> c \<le> 122) \<or> c = 95 \<or> c = 45"

fun match_here :: "pystr list \<Rightarrow> pystr \<Rightarrow> pystr option" where
  "match_here [] s = None"
| "match_here (pre # alts) s =
     (let r = drop (length pre) s
      in if prefix pre s \<and> 11 \<le> length r \<and> list_all is_id_char (take 11 r)
         then Some (take 11 r)
         else match_here alts s)"

fun re_search :: "pystr list \<Rightarrow> pystr \<Rightarrow> pystr option" where
  "re_search alts [] = match_here alts []"
| "re_search alts (c # cs) =
     (case match_here alts (c # cs) of
        Some g \<Rightarrow> Some g
      | None \<Rightarrow> re_search alts cs)"

definition extract_video_id :: "pystr \<Rightarrow> pystr option" where
  "extract_video_id url =
     (case re_search [str ''v='', str ''/''] url of
        Some g \<Rightarrow> Some g
      | None \<Rightarrow>
          (case re_search [str ''youtu.be/''] url of
             Some g \<Rightarrow> Some g
           | None \<Rightarrow> re_search [str ''youtube.com/embed/''] url))"

section \<open>The collaborators\<close>

text \<open>
  What the transcript API raises: the two exceptions the source names, and any other
  exception, with its \<open>str(e)\<close>.
\<close>

datatype api_exn = TranscriptsDisabled | NoTranscriptFound | ApiException pystr

text \<open>One entry of a video's transcript list, with the outcome of its \<open>fetch()\<close>.\<close>

record transcript =
  language_code :: pystr
  fetch :: "api_exn + part list"

text \<open>
  One call of a summarize chain: the prompt template and the text put into it. The
  chain's answer may depend on the calls made before; \<open>Inl m\<close> is a raised exception
  with \<open>str(e) = m\<close>.
\<close>

type_synonym call = "pystr \<times> pystr"

type_synonym chain = "call list \<Rightarrow> pystr \<Rightarrow> pystr \<Rightarrow> pystr + pystr"

text \<open>
  The world around one run: \<open>validators.url\<close>, \<open>YouTubeTranscriptApi.list_transcripts\<close>,
  \<open>UnstructuredURLLoader(...).load()\<close> (the \<open>page_content\<close> of each document),
  the chain, and the FPDF calls of lines 329-349 up to \<open>pdf.output(dest='S')\<close>, as a
  function of the summary and the URL.
\<close>

record env =
  valid_url :: "pystr \<Rightarrow> bool"
  list_transcripts :: "pystr \<Rightarrow> api_exn + transcript list"
  load_url :: "pystr \<Rightarrow> pystr + pystr list"
  chain_run :: chain
  fpdf_output :: "pystr \<Rightarrow> pystr \<Rightarrow> pystr + pystr"

section \<open>\<open>get_video_duration\<close> and \<open>get_youtube_transcript\<close>\<close>

text \<open>\<open>find_transcript(["en"])\<close>: \<open>None\<close> stands for the raised \<open>NoTranscriptFound\<close>.\<close>

definition find_transcript_en :: "transcript list \<Rightarrow> transcript option" where
  "find_transcript_en ts = find (\<lambda>t. language_code t = str ''en'') ts"

text \<open>The bare \<open>except\<close> turns every exception into the duration 0.\<close>

definition get_video_duration :: "env \<Rightarrow> pystr \<Rightarrow> rat" where
  "get_video_duration e video_id =
     (case list_transcripts e video_id of
        Inl x \<Rightarrow> 0
      | Inr transcript_list \<Rightarrow>
          (case find_transcript_en transcript_list of
             None \<Rightarrow> 0
           | Some t \<Rightarrow>
               (case fetch t of
                  Inl x \<Rightarrow> 0
                | Inr transcript_parts \<Rightarrow>
                    if transcript_parts \<noteq> [] then start (last transcript_parts) / 60 else 0)))"

definition duration_message :: "rat \<Rightarrow> pystr" where
  "duration_message duration_minutes =
     str ''Video duration ('' @ fmt_1f duration_minutes
       @ str '' minutes) exceeds the 30-minute limit. Please use a shorter video or segment.''"

text \<open>The three \<open>except\<close> clauses of lines 200-205.\<close>

fun transcript_except :: "api_exn \<Rightarrow> pystr" where
  "transcript_except TranscriptsDisabled = str ''Transcripts are disabled for this video.''"
| "transcript_except NoTranscriptFound = str ''No transcripts available for this video.''"
| "transcript_except (ApiException m) = str ''Error retrieving transcript: '' @ m"

definition get_youtube_transcript :: "env \<Rightarrow> pystr \<Rightarrow> pystr" where
  "get_youtube_transcript e video_url =
     (case extract_video_id video_url of
        None \<Rightarrow> str ''Invalid YouTube URL''
      | Some video_id \<Rightarrow>
          (let duration_minutes = get_video_duration e video_id
           in if duration_minutes > 30 then duration_message duration_minutes
              else
                (case list_transcripts e video_id of
                   Inl x \<Rightarrow> transcript_except x
                 | Inr transcript_list \<Rightarrow>
                     (case (case find_transcript_en transcript_list of
                              Some t \<Rightarrow> Some t
                            | None \<Rightarrow> (case transcript_list of [] \<Rightarrow> None | t # _ \<Rightarrow> Some t)) of
                        None \<Rightarrow> str ''No transcript found for this video.''
                      | Some t \<Rightarrow>
                          (case fetch t of
                             Inl x \<Rightarrow> transcript_except x
                           | Inr transcript_parts \<Rightarrow> format_transcript transcript_parts)))))"

section \<open>\<open>process_website\<close>\<close>

definition process_website :: "env \<Rightarrow> pystr \<Rightarrow> pystr + pystr list" where
  "process_website e url =
     (case load_url e url of
        Inl m \<Rightarrow> Inl (str ''Error processing website: '' @ m)
      | Inr docs \<Rightarrow> Inr docs)"

section \<open>\<open>generate_summary\<close>\<close>

definition prompt_template :: pystr where
  "prompt_template = str
     (''\<newline>Please provide a detailed and comprehensive summary of the following content in 800-1000 words. \<newline>''
      @ ''Include:\<newline>1. Main points and key ideas\<newline>2. Important details and examples\<newline>''
      @ ''3. Technical concepts (if any)\<newline>4. Key conclusions or takeaways\<newline>''
      @ ''5. Supporting arguments or evidence\<newline>\<newline>''
      @ ''Do not add information that is not present in the original text.\<newline>''
      @ ''If the content is technical, maintain the technical accuracy. If it'' @ [CHR 0x27]
      @ ''s a conversation, preserve the main discussion points.\<newline>\<newline>Content: {text}\<newline>'')"

definition final_prompt_template :: pystr where
  "final_prompt_template = str
     (''Create a coherent and concise final summary of the following content in 300 words. \<newline>''
      @ ''                Combine the key points and main ideas from all sections:\<newline>''
      @ ''                Content: {text}\<newline>                '')"

text \<open>What the \<open>try\<close> block of \<open>generate_summary\<close> can raise.\<close>

datatype summary_exn = ChainException pystr | IndexError

fun summary_exn_str :: "summary_exn \<Rightarrow> pystr" where
  "summary_exn_str (ChainException m) = m"
| "summary_exn_str IndexError = str ''list index out of range''"

text \<open>
  The inner loop over the chunks of one document and the outer loop over the documents
  (lines 226-235). The state is the list of chain calls made so far and
  \<open>all_summaries\<close>; a raised exception ends both loops.
\<close>

fun summarize_chunks ::
  "chain \<Rightarrow> pystr \<Rightarrow> call list \<Rightarrow> pystr list \<Rightarrow> pystr list \<Rightarrow> call list \<times> (pystr + pystr list)" where
  "summarize_chunks run prompt calls all_summaries [] = (calls, Inr all_summaries)"
| "summarize_chunks run prompt calls all_summaries (chunk # chunks) =
     (if strip chunk \<noteq> []
      then (case run calls prompt chunk of
              Inl m \<Rightarrow> (calls @ [(prompt, chunk)], Inl m)
            | Inr chunk_summary \<Rightarrow>
                summarize_chunks run prompt (calls @ [(prompt, chunk)])
                  (all_summaries @ [chunk_summary]) chunks)
      else summarize_chunks run prompt calls all_summaries chunks)"

fun summarize_docs ::
  "chain \<Rightarrow> pystr \<Rightarrow> call list \<Rightarrow> pystr list \<Rightarrow> pystr list \<Rightarrow> call list \<times> (pystr + pystr list)" where
  "summarize_docs run prompt calls all_summaries [] = (calls, Inr all_summaries)"
| "summarize_docs run prompt calls all_summaries (content # docs) =
     (case summarize_chunks run prompt calls all_summaries (split chunk_sep content) of
        (calls', Inl m) \<Rightarrow> (calls', Inl m)
      | (calls', Inr all_summaries') \<Rightarrow> summarize_docs run prompt calls' all_summaries' docs)"

text \<open>The body of the \<open>try\<close>: the chain calls made, and the value returned or the exception.\<close>

definition generate_summary_try ::
  "chain \<Rightarrow> pystr list \<Rightarrow> pystr \<Rightarrow> call list \<times> (summary_exn + pystr)" where
  "generate_summary_try run docs prompt =
     (case summarize_docs run prompt [] [] docs of
        (calls, Inl m) \<Rightarrow> (calls, Inl (ChainException m))
      | (calls, Inr all_summaries) \<Rightarrow>
          if length all_summaries > 1
          then (let composite = join (str ''\<newline>\<newline>'') all_summaries;
                    calls' = calls @ [(final_prompt_template, composite)]
                in case run calls final_prompt_template composite of
                     Inl m \<Rightarrow> (calls', Inl (ChainException m))
                   | Inr final_summary \<Rightarrow> (calls', Inr final_summary))
          else (case all_summaries of
                  [] \<Rightarrow> (calls, Inl IndexError)
                | s # _ \<Rightarrow> (calls, Inr s)))"

definition generate_summary :: "chain \<Rightarrow> pystr list \<Rightarrow> pystr \<Rightarrow> call list \<times> pystr" where
  "generate_summary run docs prompt =
     (case generate_summary_try run docs prompt of
        (calls, Inl x) \<Rightarrow> (calls, str ''Error generating summary: '' @ summary_exn_str x)
      | (calls, Inr summary) \<Rightarrow> (calls, summary))"

section \<open>The handler of the summarize button\<close>

text \<open>
  What the export of lines 329-349 can raise: an exception of the FPDF calls, with its
  \<open>str(e)\<close>, or the \<open>UnicodeEncodeError\<close> of \<open>.encode('latin-1')\<close>, with the position
  and the code point of the first character that does not fit.
\<close>

datatype export_exn = FPDFException pystr | UnicodeEncodeError nat nat

fun encode_latin1 :: "nat \<Rightarrow> pystr \<Rightarrow> export_exn + nat list" where
  "encode_latin1 i [] = Inr []"
| "encode_latin1 i (c # cs) =
     (if c < 256
      then (case encode_latin1 (Suc i) cs of Inl x \<Rightarrow> Inl x | Inr bs \<Rightarrow> Inr (c # bs))
      else Inl (UnicodeEncodeError i c))"

text \<open>
  What the run shows, in order. \<open>StException x\<close> is line 362,
  \<open>st.exception(f"... An error occurred: {str(e)}")\<close>, for the caught exception \<open>x\<close>;
  a download button is kept with its label, data and MIME type (its file name carries the
  time of the clock).
\<close>

datatype ui =
    StError pystr
  | StMarkdown pystr
  | StDownloadButton pystr pystr pystr
  | StException export_exn

text \<open>Lines 316-357: the text button first, then the PDF.\<close>

definition export_summary :: "env \<Rightarrow> pystr \<Rightarrow> pystr \<Rightarrow> ui list" where
  "export_summary e generic_url output_summary =
     [StDownloadButton (128229 # str '' Download as Text'') output_summary (str ''text/plain'')]
     @ (case fpdf_output e output_summary generic_url of
          Inl m \<Rightarrow> [StException (FPDFException m)]
        | Inr out \<Rightarrow>
            (case encode_latin1 0 out of
               Inl x \<Rightarrow> [StException x]
             | Inr pdf_bytes \<Rightarrow>
                 [StDownloadButton (128196 # str '' Download as PDF'') pdf_bytes
                    (str ''application/pdf'')]))"

text \<open>Lines 305-359, from the documents on.\<close>

definition summarize_docs_ui :: "env \<Rightarrow> pystr \<Rightarrow> pystr list \<Rightarrow> call list \<times> ui list" where
  "summarize_docs_ui e generic_url docs =
     (if docs \<noteq> []
      then (case generate_summary (chain_run e) docs prompt_template of
              (calls, output_summary) \<Rightarrow>
                if contains (str ''Error'') output_summary
                then (calls, [StError output_summary])
                else (calls,
                      [StMarkdown (str ''### '' @ 128203 # str '' Detailed Summary''),
                       StMarkdown output_summary]
                      @ export_summary e generic_url output_summary))
      else ([], [StError (10060 # str '' Could not process the content. Please try again.'')]))"

text \<open>
  Lines 293-303: the documents of the source, with what is shown on the way. The global
  \<open>docs\<close> is the empty list when the handler starts.
\<close>

definition fetch_docs :: "env \<Rightarrow> pystr \<Rightarrow> ui list \<times> pystr list" where
  "fetch_docs e generic_url =
     (if contains (str ''youtube.com'') generic_url \<or> contains (str ''youtu.be'') generic_url
      then (let transcript_text = get_youtube_transcript e generic_url
            in if contains (str ''Error'') transcript_text
                  \<or> contains (str ''No transcript'') transcript_text
               then ([StError transcript_text], [])
               else ([], [transcript_text]))
      else (case process_website e generic_url of
              Inl m \<Rightarrow> ([StError m], [])
            | Inr docs \<Rightarrow> ([], docs)))"

text \<open>Lines 276-364: the whole handler; the result is the chain calls made and what is shown.\<close>

definition summarize_button :: "env \<Rightarrow> pystr \<Rightarrow> call list \<times> ui list" where
  "summarize_button e generic_url =
     (if strip generic_url = []
      then ([], [StError ([9888, 65039] @ str '' Please provide a URL to get started.'')])
      else if \<not> valid_url e generic_url
      then ([], [StError ([9888, 65039] @ str '' Please enter a valid URL (YouTube or Website).'')])
      else (case fetch_docs e generic_url of
              (shown, docs) \<Rightarrow>
                (case summarize_docs_ui e generic_url docs of
                   (calls, shown') \<Rightarrow> (calls, shown @ shown'))))"

section \<open>Notions used to state the claims about \<open>generate_summary\<close>\<close>

text \<open>
  \<open>nonblank chunk\<close> is the test \<open>if chunk.strip()\<close>; \<open>all_chunks docs\<close> are the chunks of all
  documents in the order the two loops visit them. \<open>answered run calls new ans\<close> says
  that the calls \<open>new\<close>, made one after the other after the calls \<open>calls\<close>, were
  answered by the chain with \<open>ans\<close>, answer by answer.
\<close>

definition nonblank :: "pystr \<Rightarrow> bool" where
  "nonblank chunk \<longleftrightarrow> strip chunk \<noteq> []"

definition all_chunks :: "pystr list \<Rightarrow> pystr list" where
  "all_chunks docs = concat (map (split chunk_sep) docs)"

fun answered :: "chain \<Rightarrow> call list \<Rightarrow> call list \<Rightarrow> pystr list \<Rightarrow> bool" where
  "answered run calls [] [] = True"
| "answered run calls (c # new) (a # ans) =
     (run calls (fst c) (snd c) = Inr a \<and> answered run (calls @ [c]) new ans)"
| "answered run calls [] (a # ans) = False"
| "answered run calls (c # new) [] = False"

section \<open>Example worlds\<close>

text \<open>
  Concrete collaborators on which the properties below are exercised: chains that answer
  every call, a URL check that accepts, a loader that finds no document, an FPDF that
  returns its input behind a header, and a video whose only transcript is not English
  and whose last snippet starts after one hour.
\<close>

definition echo_chain :: chain where
  "echo_chain calls template content = Inr (str ''S('' @ content @ str '')'')"

definition accept_url :: "pystr \<Rightarrow> bool" where
  "accept_url url = True"

definition no_page :: "pystr \<Rightarrow> pystr + pystr list" where
  "no_page url = Inr []"

definition fpdf_passthrough :: "pystr \<Rightarrow> pystr \<Rightarrow> pystr + pystr" where
  "fpdf_passthrough output_summary url = Inr (str ''%PDF '' @ output_summary)"

definition hindi_only :: "pystr \<Rightarrow> api_exn + transcript list" where
  "hindi_only video_id =
     Inr [\<lparr>language_code = str ''hi'',
           fetch = Inr [\<lparr>start = 25 / 2, part_text = str ''namaste''\<rparr>,
                        \<lparr>start = 3600, part_text = str ''alvida''\<rparr>]\<rparr>]"

definition world_hindi :: env where
  "world_hindi = \<lparr>valid_url = accept_url, list_transcripts = hindi_only, load_url = no_page,
                   chain_run = echo_chain, fpdf_output = fpdf_passthrough\<rparr>"

definition video_url :: pystr where
  "video_url = str ''https://www.youtube.com/watch?v=dQw4w9WgXcQ''"

definition abc_chain :: chain where
  "abc_chain calls template content =
     Inr (if content = str ''a'' then str ''A'' else if content = str ''b'' then str ''B'' else str ''C'')"

definition error_page :: "pystr \<Rightarrow> pystr + pystr list" where
  "error_page url = Inr [str ''Error handling in Python'']"

definition world_error_page :: env where
  "world_error_page = \<lparr>valid_url = accept_url, list_transcripts = hindi_only,
                        load_url = error_page, chain_run = echo_chain,
                        fpdf_output = fpdf_passthrough\<rparr>"

definition quote_page :: "pystr \<Rightarrow> pystr + pystr list" where
  "quote_page url = Inr [str ''it'' @ [8217] @ str ''s'']"

definition world_quote_page :: env where
  "world_quote_page = \<lparr>valid_url = accept_url, list_transcripts = hindi_only,
                        load_url = quote_page, chain_run = echo_chain,
                        fpdf_output = fpdf_passthrough\<rparr>"

definition blank_page :: "pystr \<Rightarrow> pystr + pystr list" where
  "blank_page url = Inr [str '' \<newline>---\<newline>'']"

definition world_blank_page :: env where
  "world_blank_page = \<lparr>valid_url = accept_url, list_transcripts = hindi_only,
                        load_url = blank_page, chain_run = echo_chain,
                        fpdf_output = fpdf_passthrough\<rparr>"

definition page_url :: pystr where
  "page_url = str ''https://example.com/x''"

definition disabled_transcripts :: "pystr \<Rightarrow> api_exn + transcript list" where
  "disabled_transcripts video_id = Inl TranscriptsDisabled"

definition world_disabled :: env where
  "world_disabled = \<lparr>valid_url = accept_url, list_transcripts = disabled_transcripts,
                      load_url = no_page, chain_run = echo_chain,
                      fpdf_output = fpdf_passthrough\<rparr>"

definition long_english :: "pystr \<Rightarrow> api_exn + transcript list" where
  "long_english video_id =
     Inr [\<lparr>language_code = str ''en'',
           fetch = Inr [\<lparr>start = 0, part_text = str ''hello''\<rparr>,
                        \<lparr>start = 2700, part_text = str ''bye''\<rparr>]\<rparr>]"

definition world_long_english :: env where
  "world_long_english = \<lparr>valid_url = accept_url, list_transcripts = long_english,
                          load_url = no_page, chain_run = echo_chain,
                          fpdf_output = fpdf_passthrough\<rparr>"

section \<open>Strings: splitting and joining\<close>

lemma split_Nil: "sep \<noteq> [] \<Longrightarrow> split sep [] = [[]]"
  by (simp add: split.simps)

lemma split_prefix: "sep \<noteq> [] \<Longrightarrow> prefix sep s \<Longrightarrow> split sep s = [] # split sep (drop (length sep) s)"
  by (subst split.simps) auto

lemma split_Cons: "sep \<noteq> [] \<Longrightarrow> \<not> prefix sep (c # cs) \<Longrightarrow>
   split sep (c # cs) = (case split sep cs of [] \<Rightarrow> [[c]] | r # rs \<Rightarrow> (c # r) # rs)"
  by (subst split.simps) (auto split: list.splits)

lemma split_not_Nil: "split sep s \<noteq> []"
  by (induction sep s rule: split.induct) (subst split.simps, auto split: list.splits)

lemma join_Cons_Cons: "join sep ((c # r) # rs) = c # join sep (r # rs)"
  by (cases rs) auto

lemma join_split: "join sep (split sep s) = s"
proof (induction sep s rule: split.induct)
  case (1 sep s)
  show ?case
  proof (cases "sep = []")
    case True then show ?thesis by (simp add: split.simps)
  next
    case sep: False
    show ?thesis
    proof (cases "s = []")
      case True then show ?thesis using sep by (simp add: split.simps)
    next
      case s: False
      show ?thesis
      proof (cases "prefix sep s")
        case True
        obtain r rs where r: "split sep (drop (length sep) s) = r # rs"
          using split_not_Nil by (metis list.exhaust)
        have "join sep ([] # split sep (drop (length sep) s)) = sep @ drop (length sep) s"
          using "1.IH"(1)[OF sep s True] r by simp
        also have "\<dots> = s" using True by (metis append_eq_conv_conj prefix_def)
        finally show ?thesis using split_prefix[OF sep True] by simp
      next
        case False
        obtain c cs where s': "s = c # cs" using s by (cases s) auto
        obtain r rs where r: "split sep cs = r # rs"
          using split_not_Nil by (metis list.exhaust)
        have "join sep (r # rs) = cs" using "1.IH"(2)[OF sep s False] r s' by simp
        then show ?thesis using split_Cons[OF sep, of c cs] False s' r
          by (simp add: join_Cons_Cons)
      qed
    qed
  qed
qed




lemma contains_sublist: "contains sub s \<longleftrightarrow> sublist sub s"
  by (induction s) (auto simp: sublist_Cons_right)

lemma split_no_sep: "sep \<noteq> [] \<Longrightarrow> \<not> sublist sep s \<Longrightarrow> split sep s = [s]"
proof (induction s)
  case Nil
  then show ?case by (simp add: split_Nil)
next
  case (Cons c cs)
  then have "\<not> prefix sep (c # cs)" "\<not> sublist sep cs"
    by (auto simp: sublist_Cons_right)
  then show ?case using Cons by (simp add: split_Cons)
qed

lemma split_append_sep:
  assumes "sep \<noteq> []" and "\<not> sublist sep (a @ butlast sep)"
  shows "split sep (a @ sep @ b) = a # split sep b"
  using assms(2)
proof (induction a)
  case Nil
  have "prefix sep (sep @ b)" by simp
  then show ?case using split_prefix[OF assms(1), of "sep @ b"] by simp
next
  case (Cons c a)
  have ns: "\<not> prefix sep (c # a @ butlast sep)" and nr: "\<not> sublist sep (a @ butlast sep)"
    using Cons.prems by (auto simp: sublist_Cons_right)
  have "\<not> prefix sep (c # a @ sep @ b)"
  proof
    assume p: "prefix sep (c # a @ sep @ b)"
    have e: "c # a @ sep @ b = (c # a @ butlast sep) @ [last sep] @ b"
      using assms(1) by simp
    have "prefix (c # a @ butlast sep) (c # a @ sep @ b)"
      unfolding e by (rule prefixI[of _ _ "[last sep] @ b"]) simp
    moreover have "length sep \<le> length (c # a @ butlast sep)" by simp
    ultimately have "prefix sep (c # a @ butlast sep)"
      using p prefix_length_prefix by blast
    with ns show False ..
  qed
  then show ?case using Cons.IH[OF nr] assms(1) by (simp add: split_Cons)
qed

section \<open>The chunker\<close>

lemma join_snoc: "join sep (acc @ [cur]) = concat (map (\<lambda>c. c @ sep) acc) @ cur"
proof (induction acc)
  case Nil
  then show ?case by simp
next
  case (Cons a acc)
  obtain y ys where "acc @ [cur] = y # ys" by (cases acc) auto
  then show ?case using Cons by simp
qed

lemma chunk_loop_seg_loop:
  "formatted_text st = concat (map (\<lambda>c. c @ chunk_sep) acc) \<Longrightarrow>
   formatted_text (chunk_loop B st us) @ current_chunk (chunk_loop B st us)
     = join chunk_sep (seg_loop B acc (current_chunk st) (chunk_size st) us)"
proof (induction us arbitrary: st acc)
  case Nil
  then show ?case by (simp add: join_snoc)
next
  case (Cons u us)
  show ?case
  proof (cases "chunk_size st + length u > B")
    case True
    have "formatted_text (chunk_step B st u) = concat (map (\<lambda>c. c @ chunk_sep) (acc @ [current_chunk st]))"
      using True Cons.prems by (simp add: chunk_step_def)
    from Cons.IH[OF this] show ?thesis using True by (simp add: chunk_step_def)
  next
    case False
    have "formatted_text (chunk_step B st u) = concat (map (\<lambda>c. c @ chunk_sep) acc)"
      using False Cons.prems by (simp add: chunk_step_def)
    from Cons.IH[OF this] show ?thesis using False by (simp add: chunk_step_def)
  qed
qed

lemma chunk_units_join: "chunk_units B us = join chunk_sep (segments B us)"
  using chunk_loop_seg_loop[of chunk_init "[]" B us]
  by (simp add: chunk_units_def segments_def chunk_init_def Let_def)

lemma seg_loop_groups:
  "seg_loop B (map concat gacc) (concat gcur) n us = map concat (group_loop B gacc gcur n us)"
proof (induction us arbitrary: gacc gcur n)
  case Nil
  then show ?case by simp
next
  case (Cons u us)
  show ?case
    using Cons.IH[of "gacc @ [gcur]" "[u]" "length u"] Cons.IH[of gacc "gcur @ [u]" "n + length u"]
    by simp
qed

lemma concat_group_loop: "concat (group_loop B gacc gcur n us) = concat gacc @ gcur @ us"
  by (induction us arbitrary: gacc gcur n) auto

lemma segments_groups: "segments B us = map concat (unit_groups B us)"
  using seg_loop_groups[of B "[]" "[]" 0 us] by (simp add: segments_def unit_groups_def)

lemma concat_unit_groups: "concat (unit_groups B us) = us"
  by (simp add: unit_groups_def concat_group_loop)

lemma concat_segments: "concat (segments B us) = concat us"
proof -
  have "concat (map concat gs) = concat (concat gs)" for gs :: "pystr list list"
    by (induction gs) auto
  then show ?thesis by (simp add: segments_groups concat_unit_groups)
qed

lemma group_loop_bound:
  "\<forall>g \<in> set gacc. group_ok B g \<Longrightarrow> group_ok B gcur \<Longrightarrow> n = length (concat gcur) \<Longrightarrow>
   \<forall>g \<in> set (group_loop B gacc gcur n us). group_ok B g"
proof (induction us arbitrary: gacc gcur n)
  case Nil
  then show ?case by simp
next
  case (Cons u us)
  show ?case
  proof (cases "n + length u > B")
    case True
    have 1: "\<forall>g \<in> set (gacc @ [gcur]). group_ok B g" using Cons.prems(1,2) by simp
    have 2: "group_ok B [u]" by (cases "length u \<le> B") (simp_all add: group_ok_def)
    have 3: "length u = length (concat [u])" by simp
    show ?thesis using Cons.IH[OF 1 2 3] True by simp
  next
    case False
    have 2: "group_ok B (gcur @ [u])" using False Cons.prems(3) by (simp add: group_ok_def)
    have 3: "n + length u = length (concat (gcur @ [u]))" using Cons.prems(3) by simp
    show ?thesis using Cons.IH[OF Cons.prems(1) 2 3] False by simp
  qed
qed

lemma group_loop_acc: "set gacc \<subseteq> set (group_loop B gacc gcur n us)"
proof (induction us arbitrary: gacc gcur n)
  case Nil
  then show ?case by auto
next
  case (Cons u us)
  show ?case
    using Cons.IH[of "gacc @ [gcur]" "[u]" "length u"] Cons.IH[of gacc "gcur @ [u]" "n + length u"]
    by (simp split: if_splits)
qed

lemma group_loop_oversized_cur:
  "B < length u \<Longrightarrow> B < n \<Longrightarrow> [u] \<in> set (group_loop B gacc [u] n us)"
proof (cases us)
  case Nil then show ?thesis by simp
next
  case (Cons v vs)
  assume "B < length u" "B < n"
  then have "group_loop B gacc [u] n us = group_loop B (gacc @ [[u]]) [v] (length v) vs"
    using Cons by simp
  then show ?thesis using group_loop_acc[of "gacc @ [[u]]" B "[v]" "length v" vs] by auto
qed

lemma group_loop_oversized:
  "u \<in> set us \<Longrightarrow> B < length u \<Longrightarrow> [u] \<in> set (group_loop B gacc gcur n us)"
proof (induction us arbitrary: gacc gcur n)
  case Nil then show ?case by simp
next
  case (Cons v vs)
  show ?case
  proof (cases "v = u")
    case True
    then show ?thesis using Cons.prems(2) group_loop_oversized_cur[of B u "length u" "gacc @ [gcur]" vs]
      by simp
  next
    case False
    then have "u \<in> set vs" using Cons.prems by simp
    then show ?thesis using Cons.IH Cons.prems(2) by simp
  qed
qed

lemma chunk_sep_eq: "chunk_sep = [10, 45, 45, 45, 10]"
  by (simp add: chunk_sep_def str_def)

lemma clean_no_early:
  assumes "clean a"
  shows "\<not> sublist chunk_sep (a @ butlast chunk_sep)"
proof
  assume "sublist chunk_sep (a @ butlast chunk_sep)"
  then consider "sublist chunk_sep a" | "sublist chunk_sep (butlast chunk_sep)"
    | xs1 xs2 where "chunk_sep = xs1 @ xs2" "suffix xs1 a" "prefix xs2 (butlast chunk_sep)"
    by (auto simp: sublist_append)
  then show False
  proof cases
    case 1
    then show ?thesis using assms by (simp add: clean_def contains_sublist)
  next
    case 2
    then have "length chunk_sep \<le> length (butlast chunk_sep)" by (rule sublist_length_le)
    then show ?thesis by (simp add: chunk_sep_eq)
  next
    case 3
    show ?thesis
    proof (cases "xs1 = []")
      case True
      then have "prefix chunk_sep (butlast chunk_sep)" using 3 by simp
      then have "length chunk_sep \<le> length (butlast chunk_sep)" by (rule prefix_length_le)
      then show ?thesis by (simp add: chunk_sep_eq)
    next
      case False
      then have "a \<noteq> []" using 3(2) by (auto simp: suffix_def)
      then have la: "last a = 10" using assms by (simp add: clean_def)
      have "last xs1 = last a" using 3(2) False by (auto simp: suffix_def)
      then have l1: "last xs1 = 10" using la by simp
      from 3(1) False l1 have "xs1 = [10] \<or> xs1 = chunk_sep"
        by (auto simp: chunk_sep_eq Cons_eq_append_conv)
      then show ?thesis
      proof
        assume "xs1 = [10]"
        then have "xs2 = [45, 45, 45, 10]" using 3(1) by (simp add: chunk_sep_eq)
        then show False using 3(3) by (simp add: chunk_sep_eq)
      next
        assume "xs1 = chunk_sep"
        then have "sublist chunk_sep a" using 3(2) by auto
        then show False using assms by (simp add: clean_def contains_sublist)
      qed
    qed
  qed
qed

lemma split_join_clean:
  "cs \<noteq> [] \<Longrightarrow> \<forall>c \<in> set cs. clean c \<Longrightarrow> split chunk_sep (join chunk_sep cs) = cs"
proof (induction chunk_sep cs rule: join.induct)
  case 1
  then show ?case by simp
next
  case (2 x)
  then show ?case using split_no_sep[of chunk_sep x]
    by (simp add: clean_def contains_sublist chunk_sep_eq)
next
  case (3 x y ys)
  have "clean x" using 3 by simp
  then have "split chunk_sep (x @ chunk_sep @ join chunk_sep (y # ys)) = x # split chunk_sep (join chunk_sep (y # ys))"
    using split_append_sep[OF _ clean_no_early] by (simp add: chunk_sep_eq)
  then show ?case using 3 by simp
qed

lemma concat_units_clean:
  "\<forall>u \<in> set g. unit_ok u \<Longrightarrow> clean (concat g) \<and> (concat g = [] \<or> hd (concat g) = 91)"
proof (induction g)
  case Nil
  then show ?case by (simp add: clean_def chunk_sep_eq)
next
  case (Cons u g)
  define r where "r = concat g"
  have u: "u \<noteq> []" "hd u = 91" "last u = 10" "\<not> sublist chunk_sep u"
    using Cons.prems by (simp_all add: unit_ok_def contains_sublist)
  have r: "\<not> sublist chunk_sep r" "r = [] \<or> hd r = 91" "r = [] \<or> last r = 10"
    using Cons by (simp_all add: clean_def contains_sublist r_def)
  have "\<not> sublist chunk_sep (u @ r)"
  proof
    assume "sublist chunk_sep (u @ r)"
    then obtain xs1 xs2 where x: "chunk_sep = xs1 @ xs2" "suffix xs1 u" "prefix xs2 r"
      using u(4) r(1) by (auto simp: sublist_append)
    have n1: "xs1 \<noteq> []" using x r(1) by auto
    have n2: "xs2 \<noteq> []" using x u(4) by auto
    have "last xs1 = last u" using x(2) n1 by (auto simp: suffix_def)
    then have "last xs1 = 10" using u(3) by simp
    with x(1) n1 n2 have "xs2 = [45, 45, 45, 10]"
      by (auto simp: chunk_sep_eq Cons_eq_append_conv)
    then have "r \<noteq> [] \<and> hd r = 45" using x(3) by (auto simp: prefix_def)
    then show False using r(2) by simp
  qed
  moreover have "last (u @ r) = 10" using u(3) r(3) u(1) by (cases "r = []") simp_all
  moreover have "hd (u @ r) = 91" using u(1,2) by simp
  ultimately show ?case using u(1) by (simp add: clean_def contains_sublist r_def)
qed

lemma segments_clean:
  assumes "\<forall>u \<in> set us. unit_ok u"
  shows "\<forall>c \<in> set (segments B us). clean c"
proof
  fix c assume "c \<in> set (segments B us)"
  then obtain g where g: "g \<in> set (unit_groups B us)" "c = concat g"
    by (auto simp: segments_groups)
  have "set g \<subseteq> set (concat (unit_groups B us))" using g(1) by auto
  then have "\<forall>u \<in> set g. unit_ok u" using assms by (auto simp: concat_unit_groups)
  then show "clean c" using concat_units_clean g(2) by simp
qed

lemma seg_loop_not_Nil: "seg_loop B acc cur n us \<noteq> []"
  by (induction us arbitrary: acc cur n) auto

lemma split_chunk_units:
  "\<forall>u \<in> set us. unit_ok u \<Longrightarrow> split chunk_sep (chunk_units B us) = segments B us"
  using split_join_clean[of "segments B us"] segments_clean[of us B]
  by (simp add: chunk_units_join segments_def seg_loop_not_Nil)

lemma text_with_timestamp_shape:
  "text_with_timestamp p \<noteq> [] \<and> hd (text_with_timestamp p) = 91 \<and> last (text_with_timestamp p) = 10"
  by (simp add: text_with_timestamp_def str_def Let_def)

section \<open>Claims about the chunker\<close>

text \<open>
  Claim C1 (chunk reconstruction). For every list of units \<open>us\<close> and every budget \<open>B\<close>:
  the text the chunker returns is its Segments joined by the chunk separator; the
  Segments concatenated in order are the units concatenated in order, each unit with the
  newline that ends it, so no character is dropped and none is duplicated; splitting any
  text \<open>T\<close> at the chunk separator, as \<open>generate_summary\<close> does, and joining the pieces
  with the separator gives \<open>T\<close> back; and when every unit is a timestamped line in which
  the separator does not occur, that split recovers exactly the chunker's Segments.
\<close>

theorem chunk_reconstruction:
  "chunk_units B us = join chunk_sep (segments B us)
   \<and> concat (segments B us) = concat us
   \<and> join chunk_sep (split chunk_sep T) = T
   \<and> ((\<forall>u \<in> set us. unit_ok u) \<longrightarrow> split chunk_sep (chunk_units B us) = segments B us)"
  by (simp add: chunk_units_join [symmetric] concat_segments join_split split_chunk_units)

theorem chunk_reconstruction_witness:
  "unit_ok (str ''[00:00] hello\<newline>'') \<and> unit_ok (str ''[00:05] big world\<newline>'')
   \<and> split chunk_sep (chunk_units 20 [str ''[00:00] hello\<newline>'', str ''[00:05] big world\<newline>''])
       = [str ''[00:00] hello\<newline>'', str ''[00:05] big world\<newline>'']
   \<and> chunk_units 20 [str ''[00:00] hello\<newline>'', str ''[00:05] big world\<newline>'']
       = str ''[00:00] hello\<newline>\<newline>---\<newline>[00:05] big world\<newline>''"
proof -
  let ?us = "[str ''[00:00] hello\<newline>'', str ''[00:05] big world\<newline>'']"
  have h: "\<forall>u \<in> set ?us. unit_ok u"
    by (simp add: unit_ok_def str_def chunk_sep_eq)
  have s: "segments 20 ?us = ?us"
    by (simp add: segments_def str_def)
  have "split chunk_sep (chunk_units 20 ?us) = segments 20 ?us"
    and "chunk_units 20 ?us = join chunk_sep (segments 20 ?us)"
    using chunk_reconstruction [of 20 ?us "[]"] h by blast+
  then show ?thesis using h s by (simp add: str_def chunk_sep_eq)
qed

text \<open>
  Claim C2 (chunk bound). The Segments are the concatenations of consecutive groups of
  whole units, so no unit is split; every group has total length at most \<open>B\<close>, or is one
  single unit that alone exceeds \<open>B\<close>; and every unit that exceeds \<open>B\<close> is a
  group, hence a Segment, of its own.
\<close>

theorem chunk_bound:
  "chunk_units B us = join chunk_sep (segments B us)
   \<and> segments B us = map concat (unit_groups B us)
   \<and> concat (unit_groups B us) = us
   \<and> (\<forall>g \<in> set (unit_groups B us). length (concat g) \<le> B \<or> (\<exists>u. g = [u] \<and> B < length u))
   \<and> (\<forall>u \<in> set us. B < length u \<longrightarrow> [u] \<in> set (unit_groups B us))"
proof -
  have "\<forall>g \<in> set (unit_groups B us). group_ok B g"
    unfolding unit_groups_def by (rule group_loop_bound) (simp_all add: group_ok_def)
  then have "\<forall>g \<in> set (unit_groups B us). length (concat g) \<le> B \<or> (\<exists>u. g = [u] \<and> B < length u)"
    by (simp add: group_ok_def)
  moreover have "\<forall>u \<in> set us. B < length u \<longrightarrow> [u] \<in> set (unit_groups B us)"
    by (simp add: unit_groups_def group_loop_oversized)
  ultimately show ?thesis
    using chunk_units_join segments_groups concat_unit_groups by blast
qed

theorem chunk_bound_witness:
  "unit_groups 10 [str ''[00:00] hello\<newline>'', str ''ab\<newline>'', str ''cd\<newline>'']
     = [[], [str ''[00:00] hello\<newline>''], [str ''ab\<newline>'', str ''cd\<newline>'']]
   \<and> segments 10 [str ''[00:00] hello\<newline>'', str ''ab\<newline>'', str ''cd\<newline>'']
     = [[], str ''[00:00] hello\<newline>'', str ''ab\<newline>cd\<newline>'']
   \<and> 10 < length (str ''[00:00] hello\<newline>'')
   \<and> [str ''[00:00] hello\<newline>''] \<in> set (unit_groups 10 [str ''[00:00] hello\<newline>'', str ''ab\<newline>'', str ''cd\<newline>''])
   \<and> length (str ''ab\<newline>cd\<newline>'') \<le> 10"
proof -
  let ?u = "str ''[00:00] hello\<newline>''"
  let ?us = "[?u, str ''ab\<newline>'', str ''cd\<newline>'']"
  have g: "unit_groups 10 ?us = [[], [?u], [str ''ab\<newline>'', str ''cd\<newline>'']]"
    by (simp add: unit_groups_def str_def)
  have l: "10 < length ?u" by (simp add: str_def)
  have "?u \<in> set ?us" by simp
  with l have "[?u] \<in> set (unit_groups 10 ?us)"
    and "segments 10 ?us = map concat (unit_groups 10 ?us)"
    using chunk_bound [of 10 ?us] by blast+
  then show ?thesis using g l by (simp add: str_def)
qed

section \<open>The summarize loops\<close>

lemma answered_length: "answered run calls new ans \<Longrightarrow> length new = length ans"
  by (induction run calls new ans rule: answered.induct) auto

lemma answered_append:
  "answered run calls n1 a1 \<Longrightarrow> answered run (calls @ n1) n2 a2 \<Longrightarrow>
   answered run calls (n1 @ n2) (a1 @ a2)"
  by (induction run calls n1 a1 rule: answered.induct) auto

lemma summarize_chunks_Inr:
  "summarize_chunks run p calls sm chunks = (calls', Inr sm') \<Longrightarrow>
   \<exists>ans. calls' = calls @ map (Pair p) (filter nonblank chunks) \<and> sm' = sm @ ans
     \<and> answered run calls (map (Pair p) (filter nonblank chunks)) ans"
proof (induction chunks arbitrary: calls sm)
  case Nil
  then show ?case by auto
next
  case (Cons chunk chunks)
  show ?case
  proof (cases "strip chunk \<noteq> []")
    case True
    then obtain s where s: "run calls p chunk = Inr s"
      and r: "summarize_chunks run p (calls @ [(p, chunk)]) (sm @ [s]) chunks = (calls', Inr sm')"
      using Cons.prems by (auto split: sum.splits)
    from Cons.IH[OF r] obtain ans where
      a: "calls' = (calls @ [(p, chunk)]) @ map (Pair p) (filter nonblank chunks)"
         "sm' = (sm @ [s]) @ ans"
         "answered run (calls @ [(p, chunk)]) (map (Pair p) (filter nonblank chunks)) ans"
      by blast
    have nb: "nonblank chunk" using True by (simp add: nonblank_def)
    have "answered run calls (map (Pair p) (filter nonblank (chunk # chunks))) (s # ans)"
      using nb s a(3) by simp
    then show ?thesis using a(1,2) nb
      by (intro exI[of _ "s # ans"]) simp
  next
    case False
    then have "summarize_chunks run p calls sm chunks = (calls', Inr sm')"
      using Cons.prems by simp
    moreover have "\<not> nonblank chunk" using False by (simp add: nonblank_def)
    ultimately show ?thesis using Cons.IH by simp
  qed
qed

lemma summarize_docs_Inr:
  "summarize_docs run p calls sm docs = (calls', Inr sm') \<Longrightarrow>
   \<exists>ans. calls' = calls @ map (Pair p) (filter nonblank (all_chunks docs)) \<and> sm' = sm @ ans
     \<and> answered run calls (map (Pair p) (filter nonblank (all_chunks docs))) ans"
proof (induction docs arbitrary: calls sm)
  case Nil
  then show ?case by (auto simp: all_chunks_def)
next
  case (Cons content docs)
  obtain c1 s1 where
    1: "summarize_chunks run p calls sm (split chunk_sep content) = (c1, Inr s1)"
    and 2: "summarize_docs run p c1 s1 docs = (calls', Inr sm')"
    using Cons.prems by (auto split: prod.splits sum.splits)
  let ?n1 = "map (Pair p) (filter nonblank (split chunk_sep content))"
  let ?n2 = "map (Pair p) (filter nonblank (all_chunks docs))"
  from summarize_chunks_Inr[OF 1] obtain a1 where
    a1: "c1 = calls @ ?n1" "s1 = sm @ a1" "answered run calls ?n1 a1" by blast
  from Cons.IH[OF 2] obtain a2 where
    a2: "calls' = c1 @ ?n2" "sm' = s1 @ a2" "answered run c1 ?n2 a2" by blast
  have "answered run calls (?n1 @ ?n2) (a1 @ a2)"
    using a1(3) a2(3) a1(1) by (simp add: answered_append)
  then show ?case using a1 a2
    by (intro exI[of _ "a1 @ a2"]) (simp add: all_chunks_def)
qed

lemma summarize_docs_start:
  assumes "summarize_docs run p [] [] docs = (calls, Inr sm)"
  shows "calls = map (Pair p) (filter nonblank (all_chunks docs))"
    and "answered run [] calls sm"
    and "length calls = length sm"
proof -
  from summarize_docs_Inr[OF assms] show c: "calls = map (Pair p) (filter nonblank (all_chunks docs))"
    and a: "answered run [] calls sm" by auto
  from answered_length[OF a] show "length calls = length sm" .
qed

lemma final_prompt_neq: "final_prompt_template \<noteq> prompt_template"
  by (simp add: final_prompt_template_def prompt_template_def str_def)

section \<open>Claims about \<open>generate_summary\<close>\<close>

lemmas eval_simps = chunk_sep_eq str_def split_Nil split_prefix split_Cons strip_def is_space_def

text \<open>
  Claim C3 (single-segment short-circuit). When the two loops end with exactly one
  segment summary \<open>s\<close>, \<open>generate_summary\<close> returns \<open>s\<close> itself, and the chain calls of
  the whole run are the one call that produced \<open>s\<close>: there is no second call.
\<close>

theorem single_segment_short_circuit:
  assumes "summarize_docs run prompt [] [] docs = (calls, Inr [s])"
  shows "generate_summary run docs prompt = (calls, s)
         \<and> (\<exists>chunk. calls = [(prompt, chunk)] \<and> run [] prompt chunk = Inr s)"
proof -
  have g: "generate_summary run docs prompt = (calls, s)"
    using assms by (simp add: generate_summary_def generate_summary_try_def)
  have a: "answered run [] calls [s]" and c: "calls = map (Pair prompt) (filter nonblank (all_chunks docs))"
    using summarize_docs_start[OF assms] by auto
  from answered_length[OF a] obtain c1 where c1: "calls = [c1]"
    by (cases calls) auto
  then have "fst c1 = prompt" using c by (cases "filter nonblank (all_chunks docs)") auto
  moreover have "run [] (fst c1) (snd c1) = Inr s" using a c1 by simp
  ultimately have "calls = [(prompt, snd c1)] \<and> run [] prompt (snd c1) = Inr s"
    using c1 by (cases c1) auto
  then show ?thesis using g by blast
qed

text \<open>
  Claim C6 (order preservation). When the loops end with more than one summary, the
  last chain call gets the summaries joined by a blank line, in their order; the calls
  before it are the non-blank chunks in the order of the documents and of the chunks in
  each document, and the i-th summary is the chain's answer to the i-th of these calls.
\<close>

theorem order_preservation:
  assumes "summarize_docs run prompt [] [] docs = (calls, Inr sm)" and "1 < length sm"
  shows "fst (generate_summary run docs prompt)
           = calls @ [(final_prompt_template, join (str ''\<newline>\<newline>'') sm)]
         \<and> calls = map (Pair prompt) (filter nonblank (all_chunks docs))
         \<and> answered run [] calls sm"
proof -
  have "fst (generate_summary run docs prompt)
           = calls @ [(final_prompt_template, join (str ''\<newline>\<newline>'') sm)]"
    using assms by (simp add: generate_summary_def generate_summary_try_def Let_def split: sum.splits)
  then show ?thesis using summarize_docs_start[OF assms(1)] by simp
qed

text \<open>
  Claim C7 (two-template reduce pass). When the loops end with more than one summary,
  \<open>generate_summary\<close> makes exactly one more chain call; it is the only call with the
  template \<open>final_prompt_template\<close>, every call before it has the first-pass template
  \<open>prompt_template\<close>, the two templates differ, and what is returned is the answer to
  that call (or the error text when it raises).
\<close>

theorem two_template_reduce:
  assumes "summarize_docs run prompt_template [] [] docs = (calls, Inr sm)" and "1 < length sm"
  shows "fst (generate_summary run docs prompt_template)
           = calls @ [(final_prompt_template, join (str ''\<newline>\<newline>'') sm)]
         \<and> length calls = length sm
         \<and> (\<forall>c \<in> set calls. fst c = prompt_template)
         \<and> final_prompt_template \<noteq> prompt_template
         \<and> length (filter (\<lambda>c. fst c = final_prompt_template)
               (fst (generate_summary run docs prompt_template))) = 1
         \<and> snd (generate_summary run docs prompt_template)
             = (case run calls final_prompt_template (join (str ''\<newline>\<newline>'') sm) of
                  Inl m \<Rightarrow> str ''Error generating summary: '' @ m
                | Inr final_summary \<Rightarrow> final_summary)"
proof -
  let ?composite = "join (str ''\<newline>\<newline>'') sm"
  have 1: "fst (generate_summary run docs prompt_template) = calls @ [(final_prompt_template, ?composite)]"
    using assms by (simp add: generate_summary_def generate_summary_try_def Let_def split: sum.splits)
  have 2: "\<forall>c \<in> set calls. fst c = prompt_template" and 3: "length calls = length sm"
    using summarize_docs_start[OF assms(1)] by auto
  have "filter (\<lambda>c. fst c = final_prompt_template) calls = []"
    using 2 final_prompt_neq by (auto simp: filter_empty_conv)
  then have 4: "length (filter (\<lambda>c. fst c = final_prompt_template)
               (fst (generate_summary run docs prompt_template))) = 1"
    using 1 by simp
  have 5: "snd (generate_summary run docs prompt_template)
             = (case run calls final_prompt_template ?composite of
                  Inl m \<Rightarrow> str ''Error generating summary: '' @ m
                | Inr final_summary \<Rightarrow> final_summary)"
    using assms by (simp add: generate_summary_def generate_summary_try_def Let_def split: sum.splits)
  show ?thesis using 1 2 3 4 5 final_prompt_neq by blast
qed



theorem single_segment_short_circuit_witness:
  "summarize_docs echo_chain prompt_template [] [] [str ''hello'']
     = ([(prompt_template, str ''hello'')], Inr [str ''S(hello)''])
   \<and> generate_summary echo_chain [str ''hello''] prompt_template
     = ([(prompt_template, str ''hello'')], str ''S(hello)'')"
proof -
  have h: "summarize_docs echo_chain prompt_template [] [] [str ''hello'']
     = ([(prompt_template, str ''hello'')], Inr [str ''S(hello)''])"
    by (simp add: eval_simps echo_chain_def)
  from single_segment_short_circuit [OF h] show ?thesis using h by simp
qed

theorem order_preservation_witness:
  "summarize_docs abc_chain prompt_template [] [] [str ''a\<newline>---\<newline>b\<newline>---\<newline>c'']
     = ([(prompt_template, str ''a''), (prompt_template, str ''b''), (prompt_template, str ''c'')],
        Inr [str ''A'', str ''B'', str ''C''])
   \<and> fst (generate_summary abc_chain [str ''a\<newline>---\<newline>b\<newline>---\<newline>c''] prompt_template)
     = [(prompt_template, str ''a''), (prompt_template, str ''b''), (prompt_template, str ''c''),
        (final_prompt_template, str ''A\<newline>\<newline>B\<newline>\<newline>C'')]"
proof -
  have h: "summarize_docs abc_chain prompt_template [] [] [str ''a\<newline>---\<newline>b\<newline>---\<newline>c'']
     = ([(prompt_template, str ''a''), (prompt_template, str ''b''), (prompt_template, str ''c'')],
        Inr [str ''A'', str ''B'', str ''C''])"
    by (simp add: eval_simps abc_chain_def)
  have l: "1 < length [str ''A'', str ''B'', str ''C'']" by simp
  from order_preservation [OF h l] show ?thesis using h by (simp add: str_def)
qed

theorem two_template_reduce_witness:
  "summarize_docs echo_chain prompt_template [] [] [str ''a\<newline>---\<newline>b'']
     = ([(prompt_template, str ''a''), (prompt_template, str ''b'')], Inr [str ''S(a)'', str ''S(b)''])
   \<and> generate_summary echo_chain [str ''a\<newline>---\<newline>b''] prompt_template
     = ([(prompt_template, str ''a''), (prompt_template, str ''b''),
         (final_prompt_template, str ''S(a)\<newline>\<newline>S(b)'')],
        str ''S(S(a)\<newline>\<newline>S(b))'')
   \<and> final_prompt_template \<noteq> prompt_template"
proof -
  have h: "summarize_docs echo_chain prompt_template [] [] [str ''a\<newline>---\<newline>b'']
     = ([(prompt_template, str ''a''), (prompt_template, str ''b'')], Inr [str ''S(a)'', str ''S(b)''])"
    by (simp add: eval_simps echo_chain_def)
  have l: "1 < length [str ''S(a)'', str ''S(b)'']" by simp
  have "fst (generate_summary echo_chain [str ''a\<newline>---\<newline>b''] prompt_template)
          = [(prompt_template, str ''a''), (prompt_template, str ''b''),
             (final_prompt_template, str ''S(a)\<newline>\<newline>S(b)'')]"
    and "snd (generate_summary echo_chain [str ''a\<newline>---\<newline>b''] prompt_template)
          = str ''S(S(a)\<newline>\<newline>S(b))''"
    and "final_prompt_template \<noteq> prompt_template"
    using two_template_reduce [OF h l] by (simp_all add: str_def echo_chain_def)
  then show ?thesis using h by (simp add: prod_eq_iff)
qed

section \<open>Claims about the handler and the fetcher\<close>

lemma nonblank_iff: "nonblank s \<longleftrightarrow> (\<exists>c \<in> set s. \<not> is_space c)"
proof -
  have "strip s = [] \<longleftrightarrow> (\<forall>x \<in> set (dropWhile is_space s). is_space x)"
    by (simp add: strip_def dropWhile_eq_Nil_conv)
  also have "\<dots> \<longleftrightarrow> dropWhile is_space s = []"
  proof
    assume a: "\<forall>x \<in> set (dropWhile is_space s). is_space x"
    show "dropWhile is_space s = []"
    proof (rule ccontr)
      assume n: "dropWhile is_space s \<noteq> []"
      then have "\<not> is_space (hd (dropWhile is_space s))" by (rule hd_dropWhile)
      moreover have "hd (dropWhile is_space s) \<in> set (dropWhile is_space s)" using n by simp
      ultimately show False using a by blast
    qed
  qed (auto dest: set_dropWhileD)
  also have "\<dots> \<longleftrightarrow> (\<forall>x \<in> set s. is_space x)" by (simp add: dropWhile_eq_Nil_conv)
  finally show ?thesis by (auto simp: nonblank_def)
qed

lemma contains_set: "contains sub s \<Longrightarrow> set sub \<subseteq> set s"
  by (auto simp: contains_sublist sublist_def)

lemma summarize_chunks_blank:
  "\<forall>chunk \<in> set chunks. \<not> nonblank chunk \<Longrightarrow>
   summarize_chunks run p calls sm chunks = (calls, Inr sm)"
  by (induction chunks) (simp_all add: nonblank_def)

lemma summarize_docs_blank:
  "\<forall>chunk \<in> set (all_chunks docs). \<not> nonblank chunk \<Longrightarrow>
   summarize_docs run p calls sm docs = (calls, Inr sm)"
  by (induction docs) (simp_all add: all_chunks_def summarize_chunks_blank)

lemma generate_summary_one_doc:
  assumes "nonblank t" and "\<not> contains chunk_sep t"
  shows "fst (generate_summary run [t] p) = [(p, t)]"
    and "snd (generate_summary run [t] p)
           = (case run [] p t of Inl m \<Rightarrow> str ''Error generating summary: '' @ m | Inr s \<Rightarrow> s)"
proof -
  have sp: "split chunk_sep t = [t]"
    using assms(2) by (simp add: split_no_sep contains_sublist chunk_sep_eq)
  have st: "strip t \<noteq> []" using assms(1) by (simp add: nonblank_def)
  show "fst (generate_summary run [t] p) = [(p, t)]"
    using sp st by (simp add: generate_summary_def generate_summary_try_def split: sum.splits)
  show "snd (generate_summary run [t] p)
           = (case run [] p t of Inl m \<Rightarrow> str ''Error generating summary: '' @ m | Inr s \<Rightarrow> s)"
    using sp st by (simp add: generate_summary_def generate_summary_try_def split: sum.splits)
qed

lemma error_text_contains: "contains (str ''Error'') (str ''Error generating summary: '' @ m)"
  by (simp add: str_def)

text \<open>
  Claim C4 as the specification words it, at a concrete input.
  On a document whose text is empty no chunk is summarized, and what ends the run is the
  \<open>IndexError\<close> of \<open>all_summaries[0]\<close>, caught by the \<open>except Exception\<close> clause and
  returned as ordinary text: the source has no exception for missing content.
\<close>

theorem empty_input_counterexample:
  "generate_summary_try echo_chain [[]] prompt_template = ([], Inl IndexError)
   \<and> generate_summary echo_chain [[]] prompt_template
       = ([], str ''Error generating summary: list index out of range'')"
  by (simp add: generate_summary_def generate_summary_try_def split_Nil chunk_sep_eq strip_def str_def)

text \<open>
  Claim C4 (empty input fails explicitly), as amended. When every chunk of every document
  is blank, the loops end with no segment summary; and whenever they end with no segment
  summary, no chain call has been made and the handler shows exactly one \<open>st.error\<close>
  message, which is not empty: no summary is displayed and no download is offered. The
  failure is signalled by the message text, not by an exception for missing content.
\<close>

theorem empty_input_fails:
  "((\<forall>chunk \<in> set (all_chunks docs). \<not> nonblank chunk) \<longrightarrow>
      summarize_docs (chain_run e) prompt_template [] [] docs = ([], Inr []))
   \<and> (summarize_docs (chain_run e) prompt_template [] [] docs = (calls, Inr []) \<longrightarrow>
        calls = []
        \<and> fst (summarize_docs_ui e generic_url docs) = []
        \<and> (\<exists>m. m \<noteq> [] \<and> snd (summarize_docs_ui e generic_url docs) = [StError m]))"
proof (intro conjI impI)
  assume "\<forall>chunk \<in> set (all_chunks docs). \<not> nonblank chunk"
  then show "summarize_docs (chain_run e) prompt_template [] [] docs = ([], Inr [])"
    by (rule summarize_docs_blank)
next
  assume a: "summarize_docs (chain_run e) prompt_template [] [] docs = (calls, Inr [])"
  from summarize_docs_start(3)[OF a] show c: "calls = []" by simp
  have g: "generate_summary (chain_run e) docs prompt_template
             = ([], str ''Error generating summary: '' @ str ''list index out of range'')"
    using a c by (simp add: generate_summary_def generate_summary_try_def)
  show "fst (summarize_docs_ui e generic_url docs) = []"
    using g by (simp add: summarize_docs_ui_def)
  show "\<exists>m. m \<noteq> [] \<and> snd (summarize_docs_ui e generic_url docs) = [StError m]"
  proof (cases "docs = []")
    case True
    then show ?thesis by (simp add: summarize_docs_ui_def)
  next
    case False
    then have "snd (summarize_docs_ui e generic_url docs)
                 = [StError (str ''Error generating summary: '' @ str ''list index out of range'')]"
      using g error_text_contains by (simp add: summarize_docs_ui_def)
    then show ?thesis by (simp add: str_def)
  qed
qed

theorem empty_input_fails_witness:
  "\<not> nonblank (str '' '') \<and> \<not> nonblank []
   \<and> all_chunks [str '' \<newline>---\<newline>''] = [str '' '', []]
   \<and> summarize_docs (chain_run world_blank_page) prompt_template [] [] [str '' \<newline>---\<newline>'']
       = ([], Inr [])
   \<and> summarize_docs_ui world_blank_page page_url [str '' \<newline>---\<newline>'']
       = ([], [StError (str ''Error generating summary: list index out of range'')])"
proof -
  let ?docs = "[str '' \<newline>---\<newline>'']"
  have c: "all_chunks ?docs = [str '' '', []]"
    by (simp add: all_chunks_def eval_simps)
  have b: "\<not> nonblank (str '' '')" "\<not> nonblank []"
    by (simp_all add: nonblank_def eval_simps)
  then have h: "\<forall>chunk \<in> set (all_chunks ?docs). \<not> nonblank chunk" using c by simp
  from empty_input_fails [of ?docs world_blank_page "[]" page_url] h
  have s: "summarize_docs (chain_run world_blank_page) prompt_template [] [] ?docs = ([], Inr [])"
    by blast
  have "summarize_docs_ui world_blank_page page_url ?docs
       = ([], [StError (str ''Error generating summary: list index out of range'')])"
    using s error_text_contains [of "str ''list index out of range''"]
    by (simp add: summarize_docs_ui_def generate_summary_def generate_summary_try_def str_def)
  then show ?thesis using b c s by simp
qed

lemma encode_latin1_fail:
  "\<exists>c \<in> set out. 256 \<le> c \<Longrightarrow> \<exists>j c. 256 \<le> c \<and> encode_latin1 i out = Inl (UnicodeEncodeError j c)"
proof (induction out arbitrary: i)
  case Nil
  then show ?case by simp
next
  case (Cons a out)
  show ?case
  proof (cases "a < 256")
    case True
    then have "\<exists>c \<in> set out. 256 \<le> c" using Cons.prems by auto
    from Cons.IH[OF this, of "Suc i"] show ?thesis using True by auto
  next
    case False
    then show ?thesis by auto
  qed
qed

text \<open>
  Claim C8 (export independence). For every summary \<open>s\<close> and whatever the FPDF calls do,
  the export first offers the text download with exactly \<open>s\<close> as its data; what follows
  is either the PDF download or one \<open>st.exception\<close> for the exception the handler caught,
  and it is the \<open>UnicodeEncodeError\<close> when the FPDF output holds a character beyond
  Latin-1. Whenever \<open>generate_summary\<close> returns a summary without the word Error, the
  handler shows it and then this export.
\<close>

theorem export_independence:
  "\<exists>rest.
     export_summary e generic_url s
       = StDownloadButton (128229 # str '' Download as Text'') s (str ''text/plain'') # rest
     \<and> ((\<exists>x. rest = [StException x])
          \<or> (\<exists>pdf_bytes. rest = [StDownloadButton (128196 # str '' Download as PDF'') pdf_bytes
                                   (str ''application/pdf'')]))
     \<and> (\<forall>out. fpdf_output e s generic_url = Inr out \<longrightarrow> (\<exists>c \<in> set out. 256 \<le> c) \<longrightarrow>
            (\<exists>i c. 256 \<le> c \<and> rest = [StException (UnicodeEncodeError i c)]))
     \<and> (\<forall>calls docs. docs \<noteq> [] \<longrightarrow>
            generate_summary (chain_run e) docs prompt_template = (calls, s) \<longrightarrow>
            \<not> contains (str ''Error'') s \<longrightarrow>
            snd (summarize_docs_ui e generic_url docs)
              = [StMarkdown (str ''### '' @ 128203 # str '' Detailed Summary''), StMarkdown s]
                @ export_summary e generic_url s)"
proof (cases "fpdf_output e s generic_url")
  case (Inl m)
  then show ?thesis
    by (intro exI[of _ "[StException (FPDFException m)]"])
       (simp add: export_summary_def summarize_docs_ui_def)
next
  case (Inr out)
  show ?thesis
  proof (cases "encode_latin1 0 out")
    case (Inl x)
    have "\<exists>c \<in> set out. 256 \<le> c \<Longrightarrow> \<exists>i c. 256 \<le> c \<and> x = UnicodeEncodeError i c"
      using encode_latin1_fail[of out 0] Inl by auto
    then show ?thesis using Inl Inr
      by (intro exI[of _ "[StException x]"])
         (auto simp: export_summary_def summarize_docs_ui_def)
  next
    case bs: (Inr pdf_bytes)
    have "\<not> (\<exists>c \<in> set out. 256 \<le> c)"
      using encode_latin1_fail[of out 0] bs by auto
    then show ?thesis using bs Inr
      by (intro exI[of _ "[StDownloadButton (128196 # str '' Download as PDF'') pdf_bytes (str ''application/pdf'')]"])
         (auto simp: export_summary_def summarize_docs_ui_def)
  qed
qed

lemma twt_namaste:
  "text_with_timestamp \<lparr>start = 25 / 2, part_text = str ''namaste''\<rparr> = str ''[00:12] namaste\<newline>''"
proof -
  have 1: "\<lfloor>(25 / 2 :: rat) / 60\<rfloor> = 0" by (simp add: floor_eq_iff)
  have 2: "\<lfloor>(25 / 2 :: rat)\<rfloor> = 12" by (simp add: floor_eq_iff)
  show ?thesis
    unfolding text_with_timestamp_def Let_def part.simps 1
    by (simp add: 2 fmt_02d_def dec.simps str_def)
qed

lemma twt_alvida:
  "text_with_timestamp \<lparr>start = 3600, part_text = str ''alvida''\<rparr> = str ''[60:00] alvida\<newline>''"
proof -
  have 1: "\<lfloor>(3600 :: rat) / 60\<rfloor> = 60" by simp
  show ?thesis
    unfolding text_with_timestamp_def Let_def part.simps 1
    by (simp add: fmt_02d_def dec.simps str_def)
qed

lemma video_id_eval: "extract_video_id video_url = Some (str ''dQw4w9WgXcQ'')"
  by (simp add: extract_video_id_def video_url_def str_def is_id_char_def Let_def)

lemma hindi_transcript:
  "get_video_duration world_hindi (str ''dQw4w9WgXcQ'') = 0
   \<and> get_youtube_transcript world_hindi video_url = str ''[00:12] namaste\<newline>[60:00] alvida\<newline>''"
proof -
  have d: "get_video_duration world_hindi (str ''dQw4w9WgXcQ'') = 0"
    by (simp add: get_video_duration_def world_hindi_def hindi_only_def find_transcript_en_def str_def)
  have f: "format_transcript [\<lparr>start = 25 / 2, part_text = str ''namaste''\<rparr>,
                              \<lparr>start = 3600, part_text = str ''alvida''\<rparr>]
             = str ''[00:12] namaste\<newline>[60:00] alvida\<newline>''"
    unfolding format_transcript_def list.map twt_namaste twt_alvida
    by (simp add: chunk_units_def chunk_init_def chunk_step_def max_chunk_size_def str_def)
  have "get_youtube_transcript world_hindi video_url
          = format_transcript [\<lparr>start = 25 / 2, part_text = str ''namaste''\<rparr>,
                              \<lparr>start = 3600, part_text = str ''alvida''\<rparr>]"
    unfolding get_youtube_transcript_def video_id_eval option.case Let_def d
    by (simp add: world_hindi_def hindi_only_def find_transcript_en_def str_def)
  then show ?thesis using d f by simp
qed

lemma video_url_youtube: "contains (str ''youtube.com'') video_url"
  by (simp add: video_url_def str_def)

lemma video_url_nonblank: "strip video_url \<noteq> []"
  by (simp add: video_url_def eval_simps)

lemma duration_policy_english:
  assumes "extract_video_id video_url' = Some video_id"
    and "list_transcripts e video_id = Inr transcript_list"
    and "find_transcript_en transcript_list = Some t"
    and "fetch t = Inr transcript_parts"
    and "transcript_parts \<noteq> []"
    and "1800 < start (last transcript_parts)"
  shows "get_youtube_transcript e video_url' = duration_message (start (last transcript_parts) / 60)"
proof -
  define d where "d = start (last transcript_parts) / 60"
  have "get_video_duration e video_id = d"
    using assms by (simp add: get_video_duration_def d_def)
  moreover have "30 < d" using assms(6) by (simp add: d_def)
  ultimately have "get_youtube_transcript e video_url' = duration_message d"
    using assms(1) by (simp add: get_youtube_transcript_def)
  then show ?thesis by (simp add: d_def)
qed

text \<open>
  Claim C5 (duration policy), at a failing input. \<open>get_video_duration\<close> only looks for
  an English transcript and turns every exception into the duration 0, while
  \<open>get_youtube_transcript\<close> falls back to the first transcript of any language. For a
  video whose only transcript is Hindi and whose last snippet starts at 3600 seconds the
  measured duration is 0, the transcript is returned, and it is sent to the chain. For
  an English transcript the rejection message is returned (lemma
  \<open>duration_policy_english\<close>).
\<close>

theorem duration_policy_bypassed:
  "list_transcripts world_hindi (str ''dQw4w9WgXcQ'')
     = Inr [\<lparr>language_code = str ''hi'',
              fetch = Inr [\<lparr>start = 25 / 2, part_text = str ''namaste''\<rparr>,
                           \<lparr>start = 3600, part_text = str ''alvida''\<rparr>]\<rparr>]
   \<and> (1800 :: rat) < 3600
   \<and> get_video_duration world_hindi (str ''dQw4w9WgXcQ'') = 0
   \<and> get_youtube_transcript world_hindi video_url = str ''[00:12] namaste\<newline>[60:00] alvida\<newline>''
   \<and> fst (summarize_button world_hindi video_url)
       = [(prompt_template, str ''[00:12] namaste\<newline>[60:00] alvida\<newline>'')]"
proof -
  let ?t = "str ''[00:12] namaste\<newline>[60:00] alvida\<newline>''"
  have t: "get_youtube_transcript world_hindi video_url = ?t" using hindi_transcript by simp
  have n: "nonblank ?t" by (simp add: nonblank_def eval_simps)
  have c: "\<not> contains chunk_sep ?t" by (simp add: chunk_sep_eq str_def)
  have e: "\<not> contains (str ''Error'') ?t" "\<not> contains (str ''No transcript'') ?t"
    by (simp_all add: str_def)
  have f: "fetch_docs world_hindi video_url = ([], [?t])"
    using video_url_youtube e by (simp add: fetch_docs_def t)
  have v: "valid_url world_hindi video_url" by (simp add: world_hindi_def accept_url_def)
  have "fst (summarize_button world_hindi video_url)
          = fst (generate_summary (chain_run world_hindi) [?t] prompt_template)"
    using video_url_nonblank v f
    by (simp add: summarize_button_def summarize_docs_ui_def split: prod.splits)
  then have "fst (summarize_button world_hindi video_url) = [(prompt_template, ?t)]"
    using generate_summary_one_doc(1)[OF n c] by simp
  moreover have "list_transcripts world_hindi (str ''dQw4w9WgXcQ'')
     = Inr [\<lparr>language_code = str ''hi'',
              fetch = Inr [\<lparr>start = 25 / 2, part_text = str ''namaste''\<rparr>,
                           \<lparr>start = 3600, part_text = str ''alvida''\<rparr>]\<rparr>]"
    by (simp add: world_hindi_def hindi_only_def)
  ultimately show ?thesis using hindi_transcript by simp
qed

text \<open>
  Claim C9 (string sniffing misclassifies). Whenever the \<open>try\<close> block of
  \<open>generate_summary\<close> returns a summary \<open>s\<close> without raising, and \<open>s\<close> contains the word
  Error, the handler shows \<open>s\<close> with \<open>st.error\<close> and nothing else: it is neither displayed
  as the summary nor offered for download.
\<close>

theorem error_sniffing_misclassifies:
  assumes "generate_summary_try (chain_run e) docs prompt_template = (calls, Inr s)"
    and "contains (str ''Error'') s"
    and "docs \<noteq> []"
  shows "summarize_docs_ui e generic_url docs = (calls, [StError s])
         \<and> (strip generic_url \<noteq> [] \<longrightarrow> valid_url e generic_url \<longrightarrow>
              fetch_docs e generic_url = (shown, docs) \<longrightarrow>
              summarize_button e generic_url = (calls, shown @ [StError s]))"
proof -
  have g: "generate_summary (chain_run e) docs prompt_template = (calls, s)"
    using assms(1) by (simp add: generate_summary_def)
  then have u: "summarize_docs_ui e generic_url docs = (calls, [StError s])"
    using assms(2,3) by (simp add: summarize_docs_ui_def)
  then show ?thesis by (simp add: summarize_button_def)
qed

theorem error_sniffing_misclassifies_witness:
  "generate_summary_try (chain_run world_error_page) [str ''Error handling in Python''] prompt_template
     = ([(prompt_template, str ''Error handling in Python'')], Inr (str ''S(Error handling in Python)''))
   \<and> contains (str ''Error'') (str ''S(Error handling in Python)'')
   \<and> fetch_docs world_error_page page_url = ([], [str ''Error handling in Python''])
   \<and> summarize_button world_error_page page_url
     = ([(prompt_template, str ''Error handling in Python'')],
        [StError (str ''S(Error handling in Python)'')])"
proof -
  let ?doc = "str ''Error handling in Python''"
  let ?s = "str ''S(Error handling in Python)''"
  have g: "generate_summary_try (chain_run world_error_page) [?doc] prompt_template
             = ([(prompt_template, ?doc)], Inr ?s)"
    by (simp add: generate_summary_try_def world_error_page_def echo_chain_def eval_simps)
  have c: "contains (str ''Error'') ?s" by (simp add: str_def)
  have f: "fetch_docs world_error_page page_url = ([], [?doc])"
    by (simp add: fetch_docs_def page_url_def process_website_def world_error_page_def
          error_page_def str_def)
  have n: "strip page_url \<noteq> []" by (simp add: page_url_def eval_simps)
  have v: "valid_url world_error_page page_url"
    by (simp add: world_error_page_def accept_url_def)
  have d: "[?doc] \<noteq> []" by simp
  from error_sniffing_misclassifies [OF g c d, of page_url "[]"] n v f
  have "summarize_button world_error_page page_url = ([(prompt_template, ?doc)], [StError ?s])"
    by simp
  then show ?thesis using g c f by simp
qed

lemma set_dec: "set (dec n) \<subseteq> {48..57}"
proof (induction n rule: dec.induct)
  case (1 n)
  show ?case
  proof (cases "n < 10")
    case True
    then show ?thesis by (subst dec.simps) simp
  next
    case False
    have "48 + n mod 10 \<in> {48..57}" by simp
    then show ?thesis using 1[OF False] False by (subst dec.simps) simp
  qed
qed

lemma set_fmt_1f: "set (fmt_1f r) \<subseteq> insert 45 (insert 46 {48..57})"
  using set_dec by (auto simp: fmt_1f_def Let_def)

lemma duration_message_chars:
  "69 \<notin> set (duration_message d)" "78 \<notin> set (duration_message d)"
  "10 \<notin> set (duration_message d)" "86 \<in> set (duration_message d)"
  using set_fmt_1f[of d] by (auto simp: duration_message_def str_def)

lemma unsniffed_message:
  assumes "t = str ''Transcripts are disabled for this video.''
           \<or> t = str ''Invalid YouTube URL'' \<or> t = duration_message d"
  shows "\<not> contains (str ''Error'') t" and "\<not> contains (str ''No transcript'') t"
    and "\<not> contains chunk_sep t" and "nonblank t"
proof -
  consider (a) "t = str ''Transcripts are disabled for this video.''"
    | (b) "t = str ''Invalid YouTube URL''" | (c) "t = duration_message d"
    using assms by blast
  then have "\<not> contains (str ''Error'') t \<and> \<not> contains (str ''No transcript'') t
             \<and> \<not> contains chunk_sep t \<and> nonblank t"
  proof cases
    case a
    then show ?thesis by (simp add: nonblank_def eval_simps)
  next
    case b
    then show ?thesis by (simp add: nonblank_def eval_simps)
  next
    case c
    have 1: "\<not> contains (str ''Error'') t"
      using contains_set[of "str ''Error''" t] duration_message_chars(1)[of d] c
      by (auto simp: str_def)
    have 2: "\<not> contains (str ''No transcript'') t"
      using contains_set[of "str ''No transcript''" t] duration_message_chars(2)[of d] c
      by (auto simp: str_def)
    have 3: "\<not> contains chunk_sep t"
      using contains_set[of chunk_sep t] duration_message_chars(3)[of d] c
      by (auto simp: chunk_sep_eq)
    have "\<not> is_space 86" by (simp add: is_space_def)
    then have 4: "nonblank t"
      using duration_message_chars(4)[of d] c unfolding nonblank_iff by blast
    show ?thesis using 1 2 3 4 by simp
  qed
  then show "\<not> contains (str ''Error'') t" and "\<not> contains (str ''No transcript'') t"
    and "\<not> contains chunk_sep t" and "nonblank t" by simp_all
qed

lemma export_summary_no_error: "StError m \<notin> set (export_summary e generic_url s)"
  by (simp add: export_summary_def split: sum.splits)

text \<open>
  Claim C10 (unrecognised fetch errors become content). The messages
  "Transcripts are disabled for this video.", "Invalid YouTube URL" and the duration
  rejection, for every duration, contain neither Error nor No transcript. When
  \<open>get_youtube_transcript\<close> returns one of them for a YouTube URL, the handler takes the
  message as the only document, the one chain call of the run is the first-pass
  template on the message itself, and the message is never shown with \<open>st.error\<close>.
\<close>

theorem fetch_error_becomes_content:
  assumes "t = str ''Transcripts are disabled for this video.''
           \<or> t = str ''Invalid YouTube URL'' \<or> t = duration_message d"
    and "get_youtube_transcript e generic_url = t"
    and "contains (str ''youtube.com'') generic_url \<or> contains (str ''youtu.be'') generic_url"
    and "strip generic_url \<noteq> []"
    and "valid_url e generic_url"
  shows "\<not> contains (str ''Error'') t \<and> \<not> contains (str ''No transcript'') t
         \<and> fetch_docs e generic_url = ([], [t])
         \<and> fst (summarize_button e generic_url) = [(prompt_template, t)]
         \<and> StError t \<notin> set (snd (summarize_button e generic_url))"
proof -
  note m = unsniffed_message[OF assms(1)]
  have f: "fetch_docs e generic_url = ([], [t])"
    using assms(2,3) m(1,2) by (simp add: fetch_docs_def)
  obtain calls out where g: "generate_summary (chain_run e) [t] prompt_template = (calls, out)"
    by (cases "generate_summary (chain_run e) [t] prompt_template")
  have c: "calls = [(prompt_template, t)]"
    using generate_summary_one_doc(1)[OF m(4) m(3), of "chain_run e" prompt_template] g by simp
  have b: "summarize_button e generic_url = summarize_docs_ui e generic_url [t]"
    using assms(4,5) f by (simp add: summarize_button_def split: prod.splits)
  have 1: "fst (summarize_button e generic_url) = [(prompt_template, t)]"
    using b g c by (simp add: summarize_docs_ui_def)
  have 2: "StError t \<notin> set (snd (summarize_button e generic_url))"
  proof (cases "contains (str ''Error'') out")
    case True
    then have "out \<noteq> t" using m(1) by auto
    then show ?thesis using b g True by (simp add: summarize_docs_ui_def)
  next
    case False
    then show ?thesis using b g export_summary_no_error by (simp add: summarize_docs_ui_def)
  qed
  show ?thesis using m(1,2) f 1 2 by simp
qed

lemma duration_message_45:
  "duration_message 45
     = str ''Video duration (45.0 minutes) exceeds the 30-minute limit. Please use a shorter video or segment.''"
  by (simp add: duration_message_def fmt_1f_def round_half_even_def Let_def dec.simps str_def)

theorem fetch_error_becomes_content_witness:
  "get_youtube_transcript world_disabled video_url = str ''Transcripts are disabled for this video.''
   \<and> fst (summarize_button world_disabled video_url)
       = [(prompt_template, str ''Transcripts are disabled for this video.'')]
   \<and> get_youtube_transcript world_long_english video_url = duration_message 45
   \<and> fst (summarize_button world_long_english video_url)
       = [(prompt_template,
           str ''Video duration (45.0 minutes) exceeds the 30-minute limit. Please use a shorter video or segment.'')]"
proof -
  have v: "valid_url world_disabled video_url" "valid_url world_long_english video_url"
    by (simp_all add: world_disabled_def world_long_english_def accept_url_def)
  have y: "contains (str ''youtube.com'') video_url \<or> contains (str ''youtu.be'') video_url"
    using video_url_youtube by simp
  have d0: "get_video_duration world_disabled (str ''dQw4w9WgXcQ'') = 0"
    by (simp add: get_video_duration_def world_disabled_def disabled_transcripts_def)
  have t1: "get_youtube_transcript world_disabled video_url
              = str ''Transcripts are disabled for this video.''"
    unfolding get_youtube_transcript_def video_id_eval option.case Let_def d0
    by (simp add: world_disabled_def disabled_transcripts_def)
  have l: "list_transcripts world_long_english (str ''dQw4w9WgXcQ'')
             = Inr [\<lparr>language_code = str ''en'',
                      fetch = Inr [\<lparr>start = 0, part_text = str ''hello''\<rparr>,
                                   \<lparr>start = 2700, part_text = str ''bye''\<rparr>]\<rparr>]"
    by (simp add: world_long_english_def long_english_def)
  have t2: "get_youtube_transcript world_long_english video_url = duration_message (2700 / 60)"
    using duration_policy_english [OF video_id_eval l, of _ "[\<lparr>start = 0, part_text = str ''hello''\<rparr>,
                                   \<lparr>start = 2700, part_text = str ''bye''\<rparr>]"]
    by (simp add: find_transcript_en_def)
  then have t2': "get_youtube_transcript world_long_english video_url = duration_message 45" by simp
  have a1: "str ''Transcripts are disabled for this video.'' = str ''Transcripts are disabled for this video.''
           \<or> str ''Transcripts are disabled for this video.'' = str ''Invalid YouTube URL''
           \<or> str ''Transcripts are disabled for this video.'' = duration_message 0" by simp
  have a2: "duration_message 45 = str ''Transcripts are disabled for this video.''
           \<or> duration_message 45 = str ''Invalid YouTube URL''
           \<or> duration_message 45 = duration_message 45" by simp
  have "fst (summarize_button world_disabled video_url)
          = [(prompt_template, str ''Transcripts are disabled for this video.'')]"
    using fetch_error_becomes_content [OF a1 t1 y video_url_nonblank v(1)] by simp
  moreover have "fst (summarize_button world_long_english video_url)
          = [(prompt_template, duration_message 45)]"
    using fetch_error_becomes_content [OF a2 t2' y video_url_nonblank v(2)] by simp
  ultimately show ?thesis using t1 t2' by (simp add: duration_message_45)
qed

theorem export_independence_witness:
  "generate_summary (chain_run world_quote_page) [str ''it'' @ [8217] @ str ''s''] prompt_template
     = ([(prompt_template, str ''it'' @ [8217] @ str ''s'')], str ''S(it'' @ [8217] @ str ''s)'')
   \<and> fpdf_output world_quote_page (str ''S(it'' @ [8217] @ str ''s)'') page_url
     = Inr (str ''%PDF S(it'' @ [8217] @ str ''s)'')
   \<and> snd (summarize_docs_ui world_quote_page page_url [str ''it'' @ [8217] @ str ''s''])
     = [StMarkdown (str ''### '' @ 128203 # str '' Detailed Summary''),
        StMarkdown (str ''S(it'' @ [8217] @ str ''s)''),
        StDownloadButton (128229 # str '' Download as Text'') (str ''S(it'' @ [8217] @ str ''s)'')
          (str ''text/plain''),
        StException (UnicodeEncodeError 9 8217)]"
proof -
  let ?doc = "str ''it'' @ [8217] @ str ''s''"
  let ?s = "str ''S(it'' @ [8217] @ str ''s)''"
  have g: "generate_summary (chain_run world_quote_page) [?doc] prompt_template
             = ([(prompt_template, ?doc)], ?s)"
    by (simp add: generate_summary_def generate_summary_try_def world_quote_page_def
          echo_chain_def eval_simps)
  have n: "\<not> contains (str ''Error'') ?s" by (simp add: str_def)
  have p: "fpdf_output world_quote_page ?s page_url = Inr (str ''%PDF S(it'' @ [8217] @ str ''s)'')"
    by (simp add: world_quote_page_def fpdf_passthrough_def str_def)
  have x: "export_summary world_quote_page page_url ?s
             = [StDownloadButton (128229 # str '' Download as Text'') ?s (str ''text/plain''),
                StException (UnicodeEncodeError 9 8217)]"
    by (simp add: export_summary_def world_quote_page_def fpdf_passthrough_def str_def)
  have d: "\<forall>calls docs. docs \<noteq> [] \<longrightarrow>
            generate_summary (chain_run world_quote_page) docs prompt_template = (calls, ?s) \<longrightarrow>
            \<not> contains (str ''Error'') ?s \<longrightarrow>
            snd (summarize_docs_ui world_quote_page page_url docs)
              = [StMarkdown (str ''### '' @ 128203 # str '' Detailed Summary''), StMarkdown ?s]
                @ export_summary world_quote_page page_url ?s"
    using export_independence [of world_quote_page page_url ?s] by (elim exE conjE)
  have "snd (summarize_docs_ui world_quote_page page_url [?doc])
          = [StMarkdown (str ''### '' @ 128203 # str '' Detailed Summary''), StMarkdown ?s]
            @ export_summary world_quote_page page_url ?s"
    by (rule d [rule_format, OF _ g n]) simp
  then show ?thesis using g p x by simp
qed

end
